theory Spec2Isabelle
  imports Main
begin

section \<open>Python values used by the chatbot's PDF module\<close>

text \<open>
  A Python \<^verbatim>\<open>str\<close> is a sequence of Unicode code points, and \<^verbatim>\<open>len\<close> counts code
  points; a string is therefore modelled as a list of code points. \<open>py_str\<close> embeds
  an ASCII literal.
\<close>

type_synonym pystr = "nat list"

definition py_str :: "string \<Rightarrow> pystr" where
  "py_str s = map of_char s"

text \<open>
  The code points for which \<^verbatim>\<open>str.isspace\<close> holds, which are the separators of
  \<^verbatim>\<open>str.split()\<close> without arguments: U+0009..U+000D, U+001C..U+0020, U+0085, U+00A0,
  U+1680, U+2000..U+200A, U+2028, U+2029, U+202F, U+205F, U+3000.
\<close>

definition whitespace :: "nat list" where
  "whitespace = [9, 10, 11, 12, 13, 28, 29, 30, 31, 32, 133, 160, 5760,
     8192, 8193, 8194, 8195, 8196, 8197, 8198, 8199, 8200, 8201, 8202,
     8232, 8233, 8239, 8287, 12288]"

definition isspace :: "nat \<Rightarrow> bool" where
  "isspace c = (c \<in> set whitespace)"

text \<open>
  \<^verbatim>\<open>text.split()\<close>: the maximal runs of non-whitespace code points, in order; no
  empty word is produced. \<open>cur\<close> is the word being read.
\<close>

fun split_from :: "pystr \<Rightarrow> pystr \<Rightarrow> pystr list" where
  "split_from cur [] = (if cur = [] then [] else [cur])"
| "split_from cur (c # cs) =
     (if isspace c
      then (if cur = [] then split_from [] cs else cur # split_from [] cs)
      else split_from (cur @ [c]) cs)"

definition split :: "pystr \<Rightarrow> pystr list" where
  "split s = split_from [] s"

text \<open>\<^verbatim>\<open>sep.join(ws)\<close>.\<close>

fun join :: "pystr \<Rightarrow> pystr list \<Rightarrow> pystr" where
  "join sep [] = []"
| "join sep [w] = w"
| "join sep (w # ws) = w @ sep @ join sep ws"

text \<open>
  A slice \<^verbatim>\<open>xs[lo:hi]\<close> with integer bounds: a negative bound counts from the end,
  and every bound is clamped to \<open>0..len\<close>; a slice never raises.
\<close>

definition slice_index :: "nat \<Rightarrow> int \<Rightarrow> nat" where
  "slice_index n i =
     (if i < 0 then (if i + int n < 0 then 0 else nat (i + int n))
      else if int n \<le> i then n else nat i)"

definition py_slice :: "'a list \<Rightarrow> int \<Rightarrow> int \<Rightarrow> 'a list" where
  "py_slice xs lo hi =
     (let a = slice_index (length xs) lo; b = slice_index (length xs) hi
      in take (b - a) (drop a xs))"

text \<open>
  What the module can raise. \<open>Exception\<close> is a plain \<^verbatim>\<open>Exception(msg)\<close>, built by
  the two extraction wrappers; \<open>ValueError\<close> is raised by \<^verbatim>\<open>range\<close> for a zero step;
  \<open>Propagated\<close> stands for an exception outside the \<^verbatim>\<open>Exception\<close> hierarchy
  (\<^verbatim>\<open>KeyboardInterrupt\<close>, \<^verbatim>\<open>SystemExit\<close>) raised inside a library call, which
  \<^verbatim>\<open>except Exception\<close> lets through as it is.
\<close>

datatype py_error = Exception pystr | ValueError pystr | Propagated pystr

text \<open>
  \<^verbatim>\<open>range(start, stop, step)\<close>, as the list of the values it yields. A zero step
  raises \<^verbatim>\<open>ValueError\<close>; a positive step counts up while below \<open>stop\<close>, a negative
  one counts down while above it.
\<close>

function range_up :: "int \<Rightarrow> int \<Rightarrow> int \<Rightarrow> int list" where
  "range_up i stop step =
     (if 0 < step \<and> i < stop then i # range_up (i + step) stop step else [])"
  by pat_completeness auto
termination
  by (relation "measure (\<lambda>(i, stop, step). nat (stop - i))") auto

function range_down :: "int \<Rightarrow> int \<Rightarrow> int \<Rightarrow> int list" where
  "range_down i stop step =
     (if step < 0 \<and> stop < i then i # range_down (i + step) stop step else [])"
  by pat_completeness auto
termination
  by (relation "measure (\<lambda>(i, stop, step). nat (i - stop))") auto

declare range_up.simps [simp del] range_down.simps [simp del]

definition py_range :: "int \<Rightarrow> int \<Rightarrow> int \<Rightarrow> py_error + int list" where
  "py_range start stop step =
     (if step = 0 then Inl (ValueError (py_str ''range() arg 3 must not be zero''))
      else if 0 < step then Inr (range_up start stop step)
      else Inr (range_down start stop step))"

section \<open>pdf\_processor.py\<close>

text \<open>
  \<^verbatim>\<open>PDFProcessor.__init__\<close> stores its two arguments and does nothing else. The
  result type has an error side so that a failing constructor could be expressed.
\<close>

record PDFProcessor =
  chunk_size :: int
  chunk_overlap :: int

definition init :: "int \<Rightarrow> int \<Rightarrow> py_error + PDFProcessor" where
  "init size' overlap' = Inr \<lparr>chunk_size = size', chunk_overlap = overlap'\<rparr>"

text \<open>The dictionary appended for each chunk, one field per key.\<close>

record chunk =
  text_field :: pystr
  chunk_index :: nat
  start_char :: int
  word_count :: nat

text \<open>The body of the loop of \<^verbatim>\<open>chunk_text\<close>, for one value \<open>i\<close> of the range.\<close>

definition chunk_body :: "PDFProcessor \<Rightarrow> pystr list \<Rightarrow> chunk list \<Rightarrow> int \<Rightarrow> chunk list" where
  "chunk_body self words chunks i =
     (let chunk_words = py_slice words i (i + chunk_size self);
          chunk_text' = join (py_str '' '') chunk_words
      in chunks @ [\<lparr>text_field = chunk_text', chunk_index = length chunks,
                    start_char = i, word_count = length chunk_words\<rparr>])"

definition chunk_text :: "PDFProcessor \<Rightarrow> pystr \<Rightarrow> py_error + chunk list" where
  "chunk_text self text' =
     (let chunks = []; words = split text'
      in case py_range 0 (int (length words)) (chunk_size self - chunk_overlap self) of
           Inl e \<Rightarrow> Inl e
         | Inr is \<Rightarrow> Inr (foldl (chunk_body self words) chunks is))"

text \<open>
  The dictionary that the loop appends at position \<open>k\<close> for the range value \<open>i\<close>;
  the lemmas below describe the result of the loop with it.
\<close>

definition chunk_at :: "PDFProcessor \<Rightarrow> pystr list \<Rightarrow> nat \<Rightarrow> int \<Rightarrow> chunk" where
  "chunk_at self words k i =
     \<lparr>text_field = join (py_str '' '') (py_slice words i (i + chunk_size self)),
      chunk_index = k, start_char = i,
      word_count = length (py_slice words i (i + chunk_size self))\<rparr>"

text \<open>
  The two PDF libraries are outside the repository. A library run over one file
  either raises, or yields the text of every page in page order. \<open>lib_raise\<close>
  records of a raised exception whether it is an instance of \<^verbatim>\<open>Exception\<close> and what
  \<^verbatim>\<open>str(e)\<close> is.
\<close>

datatype lib_raise = Raises (is_Exception: bool) (str_of: pystr)

definition reraise :: "pystr \<Rightarrow> lib_raise \<Rightarrow> py_error" where
  "reraise prefix e =
     (if is_Exception e then Exception (prefix @ str_of e) else Propagated (str_of e))"

definition extract_text_pymupdf ::
    "(pystr \<Rightarrow> lib_raise + pystr list) \<Rightarrow> pystr \<Rightarrow> py_error + pystr" where
  "extract_text_pymupdf fitz pdf_path =
     (case fitz pdf_path of
        Inl e \<Rightarrow> Inl (reraise (py_str ''Error extracting text with PyMuPDF: '') e)
      | Inr pages \<Rightarrow> Inr (foldl (\<lambda>text' page. text' @ page) [] pages))"

text \<open>\<^verbatim>\<open>page.extract_text() or ""\<close>: a page without text gives \<^verbatim>\<open>None\<close>.\<close>

definition or_empty :: "pystr option \<Rightarrow> pystr" where
  "or_empty r = (case r of None \<Rightarrow> [] | Some s \<Rightarrow> s)"

definition extract_text_pdfplumber ::
    "(pystr \<Rightarrow> lib_raise + pystr option list) \<Rightarrow> pystr \<Rightarrow> py_error + pystr" where
  "extract_text_pdfplumber pdfplumber pdf_path =
     (case pdfplumber pdf_path of
        Inl e \<Rightarrow> Inl (reraise (py_str ''Error extracting text with pdfplumber: '') e)
      | Inr pages \<Rightarrow> Inr (foldl (\<lambda>text' page. text' @ or_empty page) [] pages))"

text \<open>\<^verbatim>\<open>os.path.basename\<close> on a POSIX system: what follows the last slash.\<close>

definition basename :: "pystr \<Rightarrow> pystr" where
  "basename p = rev (takeWhile (\<lambda>c. c \<noteq> 47) (rev p))"

record processing_result =
  filename :: pystr
  full_text :: pystr
  chunks :: "chunk list"
  total_chunks :: nat
  total_chars :: nat

text \<open>
  The \<^verbatim>\<open>try\<close> statement that opens \<^verbatim>\<open>process_pdf\<close>: PyMuPDF first; the bare
  \<^verbatim>\<open>except\<close> catches whatever it raises and calls pdfplumber, whose outcome stands.
  Beside the outcome, the model returns the extraction methods called, in call order.
\<close>

datatype call = Call_pymupdf pystr | Call_pdfplumber pystr

definition extract_text ::
    "(pystr \<Rightarrow> lib_raise + pystr list) \<Rightarrow> (pystr \<Rightarrow> lib_raise + pystr option list) \<Rightarrow>
     pystr \<Rightarrow> call list \<times> (py_error + pystr)" where
  "extract_text fitz pdfplumber pdf_path =
     (case extract_text_pymupdf fitz pdf_path of
        Inr text' \<Rightarrow> ([Call_pymupdf pdf_path], Inr text')
      | Inl _ \<Rightarrow> ([Call_pymupdf pdf_path, Call_pdfplumber pdf_path],
                  extract_text_pdfplumber pdfplumber pdf_path))"

definition process_pdf ::
    "(pystr \<Rightarrow> lib_raise + pystr list) \<Rightarrow> (pystr \<Rightarrow> lib_raise + pystr option list) \<Rightarrow>
     PDFProcessor \<Rightarrow> pystr \<Rightarrow> call list \<times> (py_error + processing_result)" where
  "process_pdf fitz pdfplumber self pdf_path =
     (case extract_text fitz pdfplumber pdf_path of
        (calls, Inl e) \<Rightarrow> (calls, Inl e)
      | (calls, Inr text') \<Rightarrow>
          (case chunk_text self text' of
             Inl e \<Rightarrow> (calls, Inl e)
           | Inr cs \<Rightarrow>
               (calls, Inr \<lparr>filename = basename pdf_path, full_text = text', chunks = cs,
                           total_chunks = length cs, total_chars = length text'\<rparr>)))"

text \<open>
  A document without pages, as both libraries read it: used where a claim is evaluated on
  a document whose extracted text is empty.
\<close>

definition no_pages_fitz :: "pystr \<Rightarrow> lib_raise + pystr list" where
  "no_pages_fitz pdf_path = Inr []"

definition no_pages_pdfplumber :: "pystr \<Rightarrow> lib_raise + pystr option list" where
  "no_pages_pdfplumber pdf_path = Inr []"

section \<open>app.py: the upload handler\<close>

text \<open>
  What can be raised inside the handler: the \<^verbatim>\<open>HTTPException\<close> of FastAPI, a subclass
  of \<^verbatim>\<open>Exception\<close>, and the \<^verbatim>\<open>AttributeError\<close> of \<^verbatim>\<open>file.filename.endswith\<close> when
  the upload carries no file name.
\<close>

datatype app_error = HTTPException (status_code: int) (detail: pystr) | AttributeError

record upload_response =
  message :: pystr
  upload_filename :: pystr
  user_id :: pystr
  status :: pystr

definition endswith :: "pystr \<Rightarrow> pystr \<Rightarrow> bool" where
  "endswith s suffix =
     (length suffix \<le> length s \<and> drop (length s - length suffix) s = suffix)"

text \<open>The body of the \<^verbatim>\<open>try\<close> block.\<close>

definition upload_pdf_try :: "pystr option \<Rightarrow> pystr \<Rightarrow> app_error + upload_response" where
  "upload_pdf_try file_filename uid =
     (case file_filename of
        None \<Rightarrow> Inl AttributeError
      | Some name \<Rightarrow>
          if \<not> endswith name (py_str ''.pdf'')
          then Inl (HTTPException 400 (py_str ''Only PDF files allowed''))
          else Inr \<lparr>message = py_str ''PDF uploaded successfully'', upload_filename = name,
                    user_id = uid, status = py_str ''processed''\<rparr>)"

text \<open>
  The handler. \<open>str\<close> is \<^verbatim>\<open>str(e)\<close> on the caught exception; it is defined by the
  web framework, not by this repository, and is a parameter.
\<close>

definition upload_pdf ::
    "(app_error \<Rightarrow> pystr) \<Rightarrow> pystr option \<Rightarrow> pystr \<Rightarrow> app_error + upload_response" where
  "upload_pdf str file_filename uid =
     (case upload_pdf_try file_filename uid of
        Inr r \<Rightarrow> Inr r
      | Inl e \<Rightarrow> Inl (HTTPException 500 (str e)))"

section \<open>The range and the loop\<close>

lemma chunk_body_at: "chunk_body self words acc i = acc @ [chunk_at self words (length acc) i]"
  by (simp add: chunk_body_def chunk_at_def Let_def)

lemma foldl_chunk_body:
  "foldl (chunk_body self words) acc is =
     acc @ map (\<lambda>k. chunk_at self words (length acc + k) (is ! k)) [0..<length is]"
proof (induction "is" rule: rev_induct)
  case Nil
  then show ?case by simp
next
  case (snoc i "is")
  let ?at = "\<lambda>js k. chunk_at self words (length acc + k) (js ! k)"
  have same: "map (?at (is @ [i])) [0..<length is] = map (?at is) [0..<length is]"
    by (rule map_cong) (simp_all add: nth_append)
  have "foldl (chunk_body self words) acc (is @ [i])
      = chunk_body self words (foldl (chunk_body self words) acc is) i"
    by simp
  also have "\<dots> = chunk_body self words (acc @ map (?at is) [0..<length is]) i"
    by (simp only: snoc.IH)
  also have "\<dots> = (acc @ map (?at is) [0..<length is])
      @ [chunk_at self words (length acc + length is) i]"
    by (simp add: chunk_body_at)
  also have "\<dots> = acc @ map (?at (is @ [i])) [0..<length (is @ [i])]"
    by (simp add: same)
  finally show ?case .
qed

lemma range_up_Cons:
  "0 < step \<Longrightarrow> i < stop \<Longrightarrow> range_up i stop step = i # range_up (i + step) stop step"
  by (subst range_up.simps) simp

lemma range_up_Nil: "\<not> (0 < step \<and> i < stop) \<Longrightarrow> range_up i stop step = []"
  by (subst range_up.simps) simp

lemma range_up_nth:
  "k < length (range_up i stop step) \<Longrightarrow> range_up i stop step ! k = i + int k * step"
proof (induction i stop step arbitrary: k rule: range_up.induct)
  case (1 i stop step)
  show ?case
  proof (cases "0 < step \<and> i < stop")
    case True
    then have unf: "range_up i stop step = i # range_up (i + step) stop step"
      by (simp add: range_up_Cons)
    show ?thesis
    proof (cases k)
      case 0
      then show ?thesis using unf by simp
    next
      case (Suc j)
      with "1.prems" unf have "j < length (range_up (i + step) stop step)"
        by simp
      from "1.IH" [OF True this] show ?thesis
        using unf Suc by (simp add: algebra_simps)
    qed
  next
    case False
    with "1.prems" show ?thesis by (simp add: range_up_Nil)
  qed
qed

lemma range_up_bounds:
  "x \<in> set (range_up i stop step) \<Longrightarrow> i \<le> x \<and> x < stop"
proof (induction i stop step rule: range_up.induct)
  case (1 i stop step)
  show ?case
  proof (cases "0 < step \<and> i < stop")
    case True
    then have unf: "range_up i stop step = i # range_up (i + step) stop step"
      by (simp add: range_up_Cons)
    with "1.prems" have "x = i \<or> x \<in> set (range_up (i + step) stop step)"
      by simp
    then show ?thesis
      using "1.IH" [OF True] True by auto
  next
    case False
    with "1.prems" show ?thesis by (simp add: range_up_Nil)
  qed
qed

lemma range_up_last:
  "range_up i stop step \<noteq> [] \<Longrightarrow> stop \<le> last (range_up i stop step) + step"
proof (induction i stop step rule: range_up.induct)
  case (1 i stop step)
  show ?case
  proof (cases "0 < step \<and> i < stop")
    case True
    then have unf: "range_up i stop step = i # range_up (i + step) stop step"
      by (simp add: range_up_Cons)
    show ?thesis
    proof (cases "range_up (i + step) stop step = []")
      case True
      have "\<not> (i + step < stop)"
      proof
        assume "i + step < stop"
        with \<open>0 < step \<and> i < stop\<close> have "range_up (i + step) stop step \<noteq> []"
          by (simp add: range_up_Cons)
        with True show False by simp
      qed
      with True unf show ?thesis by simp
    next
      case False
      from "1.IH" [OF True False] show ?thesis
        using unf False by simp
    qed
  next
    case False
    with "1.prems" show ?thesis by (simp add: range_up_Nil)
  qed
qed

lemma range_up_single:
  "0 < step \<Longrightarrow> i < stop \<Longrightarrow> stop \<le> i + step \<Longrightarrow> range_up i stop step = [i]"
  by (simp add: range_up_Cons range_up_Nil)

lemma range_down_Nil: "\<not> (step < 0 \<and> stop < i) \<Longrightarrow> range_down i stop step = []"
  by (subst range_down.simps) simp

section \<open>Evaluation and the shape of the result\<close>

lemmas eval_simps = chunk_text_def split_def py_range_def Let_def chunk_body_def py_slice_def
  slice_index_def isspace_def whitespace_def py_str_def range_up_Cons range_up_Nil range_down_Nil

lemma chunk_text_stride_pos:
  assumes "chunk_overlap self < chunk_size self"
  shows "chunk_text self t =
    Inr (map (\<lambda>k. chunk_at self (split t) k
                 (range_up 0 (int (length (split t))) (chunk_size self - chunk_overlap self) ! k))
          [0..<length (range_up 0 (int (length (split t))) (chunk_size self - chunk_overlap self))])"
  using assms by (simp add: chunk_text_def py_range_def Let_def foldl_chunk_body)

lemma chunk_text_stride_zero:
  "chunk_overlap self = chunk_size self \<Longrightarrow>
   chunk_text self t = Inl (ValueError (py_str ''range() arg 3 must not be zero''))"
  by (simp add: chunk_text_def py_range_def Let_def)

lemma chunk_text_stride_neg:
  "chunk_size self < chunk_overlap self \<Longrightarrow> chunk_text self t = Inr []"
  by (simp add: chunk_text_def py_range_def Let_def range_down_Nil)

lemma chunk_text_cases:
  "chunk_text self t = Inr cs \<Longrightarrow>
   cs = map (\<lambda>k. chunk_at self (split t) k
                 (range_up 0 (int (length (split t))) (chunk_size self - chunk_overlap self) ! k))
          [0..<length (range_up 0 (int (length (split t))) (chunk_size self - chunk_overlap self))]"
proof -
  assume r: "chunk_text self t = Inr cs"
  consider "chunk_overlap self < chunk_size self" | "chunk_overlap self = chunk_size self"
    | "chunk_size self < chunk_overlap self" by linarith
  then show ?thesis
  proof cases
    case 1
    from chunk_text_stride_pos [OF 1, of t] r show ?thesis by simp
  next
    case 2
    from chunk_text_stride_zero [OF 2, of t] r show ?thesis by simp
  next
    case 3
    then have "range_up 0 (int (length (split t))) (chunk_size self - chunk_overlap self) = []"
      by (simp add: range_up_Nil)
    with chunk_text_stride_neg [OF 3, of t] r show ?thesis by simp
  qed
qed

lemma py_slice_take_drop:
  "0 \<le> i \<Longrightarrow> 0 \<le> n \<Longrightarrow> py_slice xs i (i + n) = take (nat n) (drop (nat i) xs)"
  by (auto simp: py_slice_def slice_index_def Let_def nat_add_distrib nat_diff_distrib)

lemma extract_text_process_pdf:
  "snd (extract_text fitz pdfplumber pdf_path) = Inr t \<Longrightarrow> chunk_text self t = Inr cs \<Longrightarrow>
   snd (process_pdf fitz pdfplumber self pdf_path) =
   Inr \<lparr>filename = basename pdf_path, full_text = t, chunks = cs,
        total_chunks = length cs, total_chars = length t\<rparr>"
  by (cases "extract_text fitz pdfplumber pdf_path") (simp add: process_pdf_def)

lemma chunk_text_total_aux:
  "chunk_overlap self < chunk_size self \<Longrightarrow> \<exists>cs. chunk_text self t = Inr cs"
  by (simp add: chunk_text_stride_pos)

lemma chunk_index_chunk_at [simp]: "chunk_index (chunk_at self ws k i) = k"
  and start_char_chunk_at [simp]: "start_char (chunk_at self ws k i) = i"
  and word_count_chunk_at [simp]:
    "word_count (chunk_at self ws k i) = length (py_slice ws i (i + chunk_size self))"
  and text_field_chunk_at [simp]:
    "text_field (chunk_at self ws k i) = join (py_str '' '') (py_slice ws i (i + chunk_size self))"
  by (simp_all add: chunk_at_def)

lemma chunk_text_indices:
  assumes "chunk_text self t = Inr cs"
  shows "map chunk_index cs = [0..<length cs]"
proof -
  from chunk_text_cases [OF assms] show ?thesis
    by (simp add: o_def)
qed

lemma py_slice_length:
  "0 \<le> i \<Longrightarrow> 0 \<le> n \<Longrightarrow> length (py_slice xs i (i + n)) = min (nat n) (length xs - nat i)"
  by (simp add: py_slice_take_drop)

lemma chunk_text_nth:
  assumes "chunk_text self t = Inr cs" and "k < length cs"
  shows "cs ! k = chunk_at self (split t) k (int k * (chunk_size self - chunk_overlap self))"
    and "0 \<le> int k * (chunk_size self - chunk_overlap self)"
    and "int k * (chunk_size self - chunk_overlap self) < int (length (split t))"
proof -
  let ?rs = "range_up 0 (int (length (split t))) (chunk_size self - chunk_overlap self)"
  note shape = chunk_text_cases [OF assms(1)]
  from shape assms(2) have k: "k < length ?rs" by simp
  from range_up_nth [OF k] have nth: "?rs ! k = int k * (chunk_size self - chunk_overlap self)"
    by simp
  from k have "cs ! k = chunk_at self (split t) k (?rs ! k)"
    by (subst shape) simp
  with nth show "cs ! k = chunk_at self (split t) k (int k * (chunk_size self - chunk_overlap self))"
    by simp
  from k have "?rs ! k \<in> set ?rs" by simp
  from range_up_bounds [OF this] nth
  show "0 \<le> int k * (chunk_size self - chunk_overlap self)"
    and "int k * (chunk_size self - chunk_overlap self) < int (length (split t))"
    by simp_all
qed

lemma chunk_text_last:
  assumes "chunk_text self t = Inr cs" and "cs \<noteq> []"
  shows "int (length (split t)) \<le> start_char (last cs) + (chunk_size self - chunk_overlap self)"
proof -
  let ?rs = "range_up 0 (int (length (split t))) (chunk_size self - chunk_overlap self)"
  note shape = chunk_text_cases [OF assms(1)]
  from shape have len: "length cs = length ?rs" by simp
  with assms(2) have ne: "?rs \<noteq> []" by auto
  from assms(2) have "last cs = cs ! (length cs - 1)"
    by (rule last_conv_nth)
  also from ne len have "\<dots> = chunk_at self (split t) (length ?rs - 1) (?rs ! (length ?rs - 1))"
    by (subst shape) simp
  finally have "start_char (last cs) = ?rs ! (length ?rs - 1)" by simp
  also from ne have "\<dots> = last ?rs" by (simp add: last_conv_nth)
  finally show ?thesis using range_up_last [OF ne] by simp
qed

lemma chunk_text_empty:
  "chunk_size self \<noteq> chunk_overlap self \<Longrightarrow> chunk_text self [] = Inr []"
  by (simp add: chunk_text_def py_range_def split_def Let_def range_up_Nil range_down_Nil)

section \<open>The claims\<close>

subsection \<open>C1: a text of at most chunk\_size words\<close>

text \<open>
  C1, as stated, fails: with \<open>chunk_size = 4\<close> and \<open>chunk_overlap = 2\<close> the text
  \<^verbatim>\<open>"a b c"\<close> has 3 words, 3 is at most 4, and \<open>chunk_text\<close> returns two chunks,
  because the range \<open>0, 2\<close> has a second value below 3.
\<close>

theorem short_text_two_chunks:
  "length (split (py_str ''a b c'')) = 3 \<and> (3::int) \<le> 4 \<and>
   chunk_text \<lparr>chunk_size = 4, chunk_overlap = 2\<rparr> (py_str ''a b c'') =
   Inr [\<lparr>text_field = py_str ''a b c'', chunk_index = 0, start_char = 0, word_count = 3\<rparr>,
        \<lparr>text_field = py_str ''c'', chunk_index = 1, start_char = 2, word_count = 1\<rparr>]"
  by (simp add: eval_simps)

text \<open>
  C1, amended: a text of \<open>N\<close> words with \<open>1 \<le> N \<le> chunk_size\<close> and
  \<open>N \<le> chunk_size - chunk_overlap\<close> gives exactly one chunk, which holds all the words
  joined by single spaces, at index 0 and offset 0, with \<open>word_count = N\<close>; and
  \<open>process_pdf\<close>, when extraction yields this text, reports \<open>total_chunks = 1\<close>.
\<close>

theorem one_chunk_within_stride:
  assumes "1 \<le> length (split t)"
    and "int (length (split t)) \<le> chunk_size self"
    and "int (length (split t)) \<le> chunk_size self - chunk_overlap self"
  shows "chunk_text self t =
      Inr [\<lparr>text_field = join (py_str '' '') (split t), chunk_index = 0, start_char = 0,
            word_count = length (split t)\<rparr>] \<and>
    (snd (extract_text fitz pdfplumber pdf_path) = Inr t \<longrightarrow>
      (\<exists>r. snd (process_pdf fitz pdfplumber self pdf_path) = Inr r \<and> total_chunks r = 1
         \<and> length (chunks r) = 1))"
proof -
  let ?n = "int (length (split t))"
  let ?stride = "chunk_size self - chunk_overlap self"
  from assms(1) have ne: "0 < ?n" by (cases "split t") simp_all
  with assms have pos: "chunk_overlap self < chunk_size self" by linarith
  from ne assms have "range_up 0 ?n ?stride = [0]"
    by (intro range_up_single) linarith+
  moreover from ne assms have "py_slice (split t) 0 (0 + chunk_size self) = split t"
    by (subst py_slice_take_drop) simp_all
  ultimately have one: "chunk_text self t =
      Inr [\<lparr>text_field = join (py_str '' '') (split t), chunk_index = 0, start_char = 0,
            word_count = length (split t)\<rparr>]"
    by (simp add: chunk_text_stride_pos [OF pos] chunk_at_def)
  show ?thesis
  proof (intro conjI impI)
    show "chunk_text self t =
      Inr [\<lparr>text_field = join (py_str '' '') (split t), chunk_index = 0, start_char = 0,
            word_count = length (split t)\<rparr>]"
      by (rule one)
  next
    assume "snd (extract_text fitz pdfplumber pdf_path) = Inr t"
    from extract_text_process_pdf [OF this one]
    show "\<exists>r. snd (process_pdf fitz pdfplumber self pdf_path) = Inr r \<and> total_chunks r = 1
         \<and> length (chunks r) = 1"
      by simp
  qed
qed


theorem one_chunk_within_stride_witness:
  "1 \<le> length (split (py_str ''a b c'')) \<and>
   int (length (split (py_str ''a b c''))) \<le> chunk_size \<lparr>chunk_size = 4, chunk_overlap = 1\<rparr> \<and>
   int (length (split (py_str ''a b c'')))
     \<le> chunk_size \<lparr>chunk_size = 4, chunk_overlap = 1\<rparr>
       - chunk_overlap \<lparr>chunk_size = 4, chunk_overlap = 1\<rparr> \<and>
   chunk_text \<lparr>chunk_size = 4, chunk_overlap = 1\<rparr> (py_str ''a b c'') =
     Inr [\<lparr>text_field = py_str ''a b c'', chunk_index = 0, start_char = 0, word_count = 3\<rparr>] \<and>
   (\<exists>r. snd (process_pdf (\<lambda>_. Inr [py_str ''a b c'']) (\<lambda>_. Inr [])
              \<lparr>chunk_size = 4, chunk_overlap = 1\<rparr> (py_str ''a.pdf'')) = Inr r
      \<and> total_chunks r = 1 \<and> length (chunks r) = 1)"
proof -
  let ?t = "py_str ''a b c''"
  let ?self = "\<lparr>chunk_size = 4, chunk_overlap = 1\<rparr>"
  have h1: "1 \<le> length (split ?t)"
    by (simp add: eval_simps)
  have h2: "int (length (split ?t)) \<le> chunk_size ?self"
    by (simp add: eval_simps)
  have h3: "int (length (split ?t)) \<le> chunk_size ?self - chunk_overlap ?self"
    by (simp add: eval_simps)
  have ex: "snd (extract_text (\<lambda>_. Inr [?t]) (\<lambda>_. Inr []) (py_str ''a.pdf'')) = Inr ?t"
    by (simp add: extract_text_def extract_text_pymupdf_def)
  have w: "join (py_str '' '') (split ?t) = ?t" "length (split ?t) = 3"
    by (simp_all add: eval_simps)
  from one_chunk_within_stride [OF h1 h2 h3, of "\<lambda>_. Inr [?t]" "\<lambda>_. Inr []" "py_str ''a.pdf''"]
  show ?thesis
    using h1 h2 h3 ex by (simp only: w)
qed

subsection \<open>C4: the worked example\<close>

text \<open>
  C4: for the text \<^verbatim>\<open>"a b c d e f g h"\<close> with \<open>chunk_size = 4\<close> and
  \<open>chunk_overlap = 2\<close>, \<open>chunk_text\<close> returns exactly four chunks, in this order:
  \<^verbatim>\<open>"a b c d"\<close> at index 0 and offset 0, \<^verbatim>\<open>"c d e f"\<close> at index 1 and offset 2,
  \<^verbatim>\<open>"e f g h"\<close> at index 2 and offset 4, \<^verbatim>\<open>"g h"\<close> at index 3 and offset 6.
\<close>

theorem chunk_text_example:
  "chunk_text \<lparr>chunk_size = 4, chunk_overlap = 2\<rparr> (py_str ''a b c d e f g h'') =
   Inr [\<lparr>text_field = py_str ''a b c d'', chunk_index = 0, start_char = 0, word_count = 4\<rparr>,
        \<lparr>text_field = py_str ''c d e f'', chunk_index = 1, start_char = 2, word_count = 4\<rparr>,
        \<lparr>text_field = py_str ''e f g h'', chunk_index = 2, start_char = 4, word_count = 4\<rparr>,
        \<lparr>text_field = py_str ''g h'', chunk_index = 3, start_char = 6, word_count = 2\<rparr>]"
  by (simp add: eval_simps)

subsection \<open>C7: chunking returns under a valid configuration\<close>

text \<open>
  C7: when \<open>chunk_overlap < chunk_size\<close>, \<open>chunk_text\<close> returns a list of chunks for
  every input string and raises nothing. The range, the slices and the joins of the
  model are total functions that follow Python's rules, and the loop runs once for each
  value of a finite range.
\<close>

theorem chunk_text_total:
  "chunk_overlap self < chunk_size self \<Longrightarrow> \<exists>cs. chunk_text self t = Inr cs"
  by (simp add: chunk_text_stride_pos)

theorem chunk_text_total_witness:
  "(2::int) < 4 \<and> (\<exists>cs. chunk_text \<lparr>chunk_size = 4, chunk_overlap = 2\<rparr> (py_str ''a b c'') = Inr cs)"
  using chunk_text_total [of "\<lparr>chunk_size = 4, chunk_overlap = 2\<rparr>" "py_str ''a b c''"]
  by simp



subsection \<open>C5: the invariants of the result record\<close>

text \<open>
  C5: every record that \<open>process_pdf\<close> returns has \<open>total_chunks\<close> equal to the
  length of \<open>chunks\<close>, \<open>total_chars\<close> equal to the length of \<open>full_text\<close>, and the
  \<open>chunk_index\<close> values \<open>0, 1, 2, \<dots>\<close> in emission order. A record is returned whenever
  extraction succeeds and \<open>chunk_size\<close> differs from \<open>chunk_overlap\<close> (with the two
  equal, \<^verbatim>\<open>range\<close> raises and there is no record).
\<close>

theorem process_pdf_invariants:
  "(\<forall>r. snd (process_pdf fitz pdfplumber self pdf_path) = Inr r \<longrightarrow>
      total_chunks r = length (chunks r) \<and> total_chars r = length (full_text r) \<and>
      map chunk_index (chunks r) = [0..<length (chunks r)]) \<and>
   (\<forall>t. snd (extract_text fitz pdfplumber pdf_path) = Inr t \<longrightarrow>
      chunk_size self \<noteq> chunk_overlap self \<longrightarrow>
      (\<exists>r. snd (process_pdf fitz pdfplumber self pdf_path) = Inr r \<and> full_text r = t))"
proof (intro conjI allI impI)
  fix r
  assume r: "snd (process_pdf fitz pdfplumber self pdf_path) = Inr r"
  obtain calls res where e: "extract_text fitz pdfplumber pdf_path = (calls, res)"
    by (cases "extract_text fitz pdfplumber pdf_path")
  from r e obtain t where t: "res = Inr t"
    by (cases res) (simp_all add: process_pdf_def)
  from r e t obtain cs where cs: "chunk_text self t = Inr cs"
    by (cases "chunk_text self t") (simp_all add: process_pdf_def)
  from r e t cs have req: "r = \<lparr>filename = basename pdf_path, full_text = t, chunks = cs,
      total_chunks = length cs, total_chars = length t\<rparr>"
    by (simp add: process_pdf_def)
  show "total_chunks r = length (chunks r)" by (simp add: req)
  show "total_chars r = length (full_text r)" by (simp add: req)
  show "map chunk_index (chunks r) = [0..<length (chunks r)]"
    using chunk_text_indices [OF cs] by (simp add: req)
next
  fix t
  assume t: "snd (extract_text fitz pdfplumber pdf_path) = Inr t"
    and ne: "chunk_size self \<noteq> chunk_overlap self"
  from ne consider "chunk_overlap self < chunk_size self" | "chunk_size self < chunk_overlap self"
    by linarith
  then obtain cs where "chunk_text self t = Inr cs"
    by cases (auto simp: chunk_text_stride_pos chunk_text_stride_neg)
  from extract_text_process_pdf [OF t this]
  show "\<exists>r. snd (process_pdf fitz pdfplumber self pdf_path) = Inr r \<and> full_text r = t"
    by simp
qed

theorem process_pdf_invariants_witness:
  "snd (process_pdf (\<lambda>_. Inr [py_str ''a b '', py_str ''c'']) (\<lambda>_. Inr [])
         \<lparr>chunk_size = 4, chunk_overlap = 2\<rparr> (py_str ''docs/x.pdf'')) =
     Inr \<lparr>filename = py_str ''x.pdf'', full_text = py_str ''a b c'',
          chunks = [\<lparr>text_field = py_str ''a b c'', chunk_index = 0, start_char = 0, word_count = 3\<rparr>,
                    \<lparr>text_field = py_str ''c'', chunk_index = 1, start_char = 2, word_count = 1\<rparr>],
          total_chunks = 2, total_chars = 5\<rparr> \<and>
   map chunk_index
     [\<lparr>text_field = py_str ''a b c'', chunk_index = 0, start_char = 0, word_count = 3\<rparr>,
      \<lparr>text_field = py_str ''c'', chunk_index = 1, start_char = 2, word_count = 1\<rparr>] = [0..<2]"
proof -
  let ?fitz = "\<lambda>_::pystr. Inr [py_str ''a b '', py_str ''c''] :: lib_raise + pystr list"
  let ?pl = "\<lambda>_::pystr. Inr [] :: lib_raise + pystr option list"
  let ?self = "\<lparr>chunk_size = 4, chunk_overlap = 2\<rparr>"
  let ?chunks = "[\<lparr>text_field = py_str ''a b c'', chunk_index = 0, start_char = 0, word_count = 3\<rparr>,
      \<lparr>text_field = py_str ''c'', chunk_index = 1, start_char = 2, word_count = 1\<rparr>]"
  let ?r = "\<lparr>filename = py_str ''x.pdf'', full_text = py_str ''a b c'', chunks = ?chunks,
          total_chunks = 2, total_chars = 5\<rparr>"
  have run: "snd (process_pdf ?fitz ?pl ?self (py_str ''docs/x.pdf'')) = Inr ?r"
    by (simp add: process_pdf_def extract_text_def extract_text_pymupdf_def basename_def eval_simps)
  from process_pdf_invariants [of ?fitz ?pl ?self "py_str ''docs/x.pdf''"] run
  have "map chunk_index (chunks ?r) = [0..<length (chunks ?r)]"
    by blast
  then have "map chunk_index ?chunks = [0..<2]"
    by (simp only: processing_result.simps list.size One_nat_def [symmetric] plus_nat.add_0
          Suc_eq_plus1 one_add_one)
  with run show ?thesis by (intro conjI)
qed


subsection \<open>C6: offsets advance by the stride and the last chunk reaches the end\<close>

text \<open>
  C6, as stated, fails for a negative overlap: with \<open>chunk_size = 2\<close> and
  \<open>chunk_overlap = -1\<close> the stride is 3, the text \<^verbatim>\<open>"a b c"\<close> gives the single chunk
  \<^verbatim>\<open>"a b"\<close> at offset 0 with 2 words, and its end offset 2 is below the word count 3.
\<close>

theorem negative_overlap_gap:
  "chunk_overlap \<lparr>chunk_size = 2, chunk_overlap = - 1\<rparr> < chunk_size \<lparr>chunk_size = 2, chunk_overlap = - 1\<rparr> \<and>
   length (split (py_str ''a b c'')) = 3 \<and>
   chunk_text \<lparr>chunk_size = 2, chunk_overlap = - 1\<rparr> (py_str ''a b c'') =
     Inr [\<lparr>text_field = py_str ''a b'', chunk_index = 0, start_char = 0, word_count = 2\<rparr>]"
  by (simp add: eval_simps)

text \<open>
  C6, amended: for every text and every configuration with
  \<open>0 \<le> chunk_overlap < chunk_size\<close>, \<open>chunk_text\<close> returns chunks whose start offsets are
  \<open>0, S - O, 2 * (S - O), \<dots>\<close>; there is a chunk exactly when the text has a word; and the
  start offset of the last chunk plus its \<open>word_count\<close> is at least the word count of the
  text.
\<close>

theorem offsets_by_stride:
  assumes "0 \<le> chunk_overlap self" and "chunk_overlap self < chunk_size self"
  shows "\<exists>cs. chunk_text self t = Inr cs \<and>
     (\<forall>k<length cs. start_char (cs ! k) = int k * (chunk_size self - chunk_overlap self)) \<and>
     (cs = [] \<longleftrightarrow> split t = []) \<and>
     (cs \<noteq> [] \<longrightarrow>
        int (length (split t)) \<le> start_char (last cs) + int (word_count (last cs)))"
proof -
  let ?stride = "chunk_size self - chunk_overlap self"
  let ?rs = "range_up 0 (int (length (split t))) ?stride"
  from chunk_text_total_aux [OF assms(2)] obtain cs where cs: "chunk_text self t = Inr cs"
    by blast
  note shape = chunk_text_cases [OF cs]
  have offs: "\<forall>k<length cs. start_char (cs ! k) = int k * ?stride"
    using chunk_text_nth(1) [OF cs] by simp
  from shape have "cs = [] \<longleftrightarrow> ?rs = []" by simp
  also from assms(2) have "\<dots> \<longleftrightarrow> split t = []"
    by (subst range_up.simps) simp
  finally have empty: "cs = [] \<longleftrightarrow> split t = []" .
  have cover: "int (length (split t)) \<le> start_char (last cs) + int (word_count (last cs))"
    if ne: "cs \<noteq> []"
  proof -
    let ?k = "length cs - 1"
    from ne have k: "?k < length cs" by simp
    from ne have l: "last cs = cs ! ?k" by (rule last_conv_nth)
    let ?i = "int ?k * ?stride"
    from chunk_text_nth [OF cs k] l
    have at: "last cs = chunk_at self (split t) ?k ?i" and lo: "0 \<le> ?i"
      and hi: "?i < int (length (split t))"
      by simp_all
    from chunk_text_last [OF cs ne] at have far: "int (length (split t)) \<le> ?i + ?stride"
      by simp
    from assms have size: "0 \<le> chunk_size self" by simp
    from at have "word_count (last cs) = length (py_slice (split t) ?i (?i + chunk_size self))"
      by simp
    also from lo size have "\<dots> = min (nat (chunk_size self)) (length (split t) - nat ?i)"
      by (rule py_slice_length)
    finally have wc: "int (word_count (last cs))
        = int (min (nat (chunk_size self)) (length (split t) - nat ?i))" by simp
    from at have sc: "start_char (last cs) = ?i" by simp
    from far assms lo hi size show ?thesis
      unfolding wc sc by (simp add: min_def)
  qed
  from cs offs empty cover show ?thesis by blast
qed


theorem offsets_by_stride_witness:
  "0 \<le> chunk_overlap \<lparr>chunk_size = 4, chunk_overlap = 2\<rparr> \<and>
   chunk_overlap \<lparr>chunk_size = 4, chunk_overlap = 2\<rparr> < chunk_size \<lparr>chunk_size = 4, chunk_overlap = 2\<rparr> \<and>
   chunk_text \<lparr>chunk_size = 4, chunk_overlap = 2\<rparr> (py_str ''a b c'') =
     Inr [\<lparr>text_field = py_str ''a b c'', chunk_index = 0, start_char = 0, word_count = 3\<rparr>,
          \<lparr>text_field = py_str ''c'', chunk_index = 1, start_char = 2, word_count = 1\<rparr>] \<and>
   start_char ([\<lparr>text_field = py_str ''a b c'', chunk_index = 0, start_char = 0, word_count = 3\<rparr>,
          \<lparr>text_field = py_str ''c'', chunk_index = 1, start_char = 2, word_count = 1\<rparr>] ! 1) =
     int 1 * (chunk_size \<lparr>chunk_size = 4, chunk_overlap = 2\<rparr> - chunk_overlap \<lparr>chunk_size = 4, chunk_overlap = 2\<rparr>) \<and>
   int (length (split (py_str ''a b c''))) \<le>
     start_char (last [\<lparr>text_field = py_str ''a b c'', chunk_index = 0, start_char = 0, word_count = 3\<rparr>,
          \<lparr>text_field = py_str ''c'', chunk_index = 1, start_char = 2, word_count = 1\<rparr>])
     + int (word_count (last [\<lparr>text_field = py_str ''a b c'', chunk_index = 0, start_char = 0, word_count = 3\<rparr>,
          \<lparr>text_field = py_str ''c'', chunk_index = 1, start_char = 2, word_count = 1\<rparr>]))"
proof -
  let ?self = "\<lparr>chunk_size = 4, chunk_overlap = 2\<rparr>"
  let ?t = "py_str ''a b c''"
  let ?cs = "[\<lparr>text_field = py_str ''a b c'', chunk_index = 0, start_char = 0, word_count = 3\<rparr>,
          \<lparr>text_field = py_str ''c'', chunk_index = 1, start_char = 2, word_count = 1\<rparr>]"
  have h1: "0 \<le> chunk_overlap ?self" and h2: "chunk_overlap ?self < chunk_size ?self"
    by simp_all
  have run: "chunk_text ?self ?t = Inr ?cs"
    by (simp add: eval_simps)
  from offsets_by_stride [OF h1 h2, of ?t] obtain cs where
    cs: "chunk_text ?self ?t = Inr cs"
    and offs: "\<forall>k<length cs. start_char (cs ! k) = int k * (chunk_size ?self - chunk_overlap ?self)"
    and cover: "cs \<noteq> [] \<longrightarrow> int (length (split ?t)) \<le> start_char (last cs) + int (word_count (last cs))"
    by blast
  from cs run have eq: "cs = ?cs" by simp
  have "(1::nat) < length ?cs" by simp
  with offs have o1: "start_char (?cs ! 1) = int 1 * (chunk_size ?self - chunk_overlap ?self)"
    unfolding eq by blast
  from cover have c1: "int (length (split ?t)) \<le> start_char (last ?cs) + int (word_count (last ?cs))"
    unfolding eq by blast
  from h1 h2 run o1 c1 show ?thesis by (intro conjI)
qed

subsection \<open>C9: start\_char is a word index\<close>

text \<open>
  C9: for every chunk that \<open>chunk_text\<close> emits, the value under \<open>start_char\<close> is the index
  in \<open>split text\<close> of the chunk's first word: it is the chunk's position times the stride,
  it lies within the word list, that many words precede the chunk, and the chunk's text
  and \<open>word_count\<close> are those of the slice of the word list that starts there. It is not
  a character offset: in \<^verbatim>\<open>"ab cd"\<close> with \<open>chunk_size = 1\<close>, \<open>chunk_overlap = 0\<close> the
  chunk \<^verbatim>\<open>"cd"\<close> has \<open>start_char = 1\<close>, while \<^verbatim>\<open>"cd"\<close> begins at character 3.
\<close>

theorem start_char_counts_words:
  assumes "chunk_text self t = Inr cs" and "k < length cs"
  shows "start_char (cs ! k) = int k * (chunk_size self - chunk_overlap self) \<and>
     0 \<le> start_char (cs ! k) \<and> start_char (cs ! k) < int (length (split t)) \<and>
     length (take (nat (start_char (cs ! k))) (split t)) = nat (start_char (cs ! k)) \<and>
     text_field (cs ! k) = join (py_str '' '')
        (py_slice (split t) (start_char (cs ! k)) (start_char (cs ! k) + chunk_size self)) \<and>
     word_count (cs ! k) =
        length (py_slice (split t) (start_char (cs ! k)) (start_char (cs ! k) + chunk_size self)) \<and>
     (0 \<le> chunk_size self \<longrightarrow>
        py_slice (split t) (start_char (cs ! k)) (start_char (cs ! k) + chunk_size self) =
        take (nat (chunk_size self)) (drop (nat (start_char (cs ! k))) (split t))) \<and>
     chunk_text \<lparr>chunk_size = 1, chunk_overlap = 0\<rparr> (py_str ''ab cd'') =
       Inr [\<lparr>text_field = py_str ''ab'', chunk_index = 0, start_char = 0, word_count = 1\<rparr>,
            \<lparr>text_field = py_str ''cd'', chunk_index = 1, start_char = 1, word_count = 1\<rparr>] \<and>
     drop 3 (py_str ''ab cd'') = py_str ''cd'' \<and> drop 1 (py_str ''ab cd'') = py_str ''b cd''"
proof -
  let ?i = "int k * (chunk_size self - chunk_overlap self)"
  from chunk_text_nth [OF assms]
  have at: "cs ! k = chunk_at self (split t) k ?i" and lo: "0 \<le> ?i"
    and hi: "?i < int (length (split t))"
    by simp_all
  from at have sc: "start_char (cs ! k) = ?i" by simp
  from lo hi have "length (take (nat ?i) (split t)) = nat ?i" by simp
  moreover have "0 \<le> chunk_size self \<longrightarrow> py_slice (split t) ?i (?i + chunk_size self) =
        take (nat (chunk_size self)) (drop (nat ?i) (split t))"
    using lo by (simp add: py_slice_take_drop)
  moreover have "chunk_text \<lparr>chunk_size = 1, chunk_overlap = 0\<rparr> (py_str ''ab cd'') =
       Inr [\<lparr>text_field = py_str ''ab'', chunk_index = 0, start_char = 0, word_count = 1\<rparr>,
            \<lparr>text_field = py_str ''cd'', chunk_index = 1, start_char = 1, word_count = 1\<rparr>]"
    by (simp add: eval_simps)
  moreover have "drop 3 (py_str ''ab cd'') = py_str ''cd''"
    and "drop 1 (py_str ''ab cd'') = py_str ''b cd''"
    by (simp_all add: py_str_def)
  ultimately show ?thesis
    using lo hi unfolding sc by (simp add: at)
qed

theorem start_char_counts_words_witness:
  "chunk_text \<lparr>chunk_size = 1, chunk_overlap = 0\<rparr> (py_str ''ab cd'') =
       Inr [\<lparr>text_field = py_str ''ab'', chunk_index = 0, start_char = 0, word_count = 1\<rparr>,
            \<lparr>text_field = py_str ''cd'', chunk_index = 1, start_char = 1, word_count = 1\<rparr>] \<and>
   (1::nat) < length [\<lparr>text_field = py_str ''ab'', chunk_index = 0, start_char = 0, word_count = 1\<rparr>,
            \<lparr>text_field = py_str ''cd'', chunk_index = 1, start_char = 1, word_count = 1\<rparr>] \<and>
   py_str ''cd'' = join (py_str '' '') (py_slice (split (py_str ''ab cd'')) 1 (1 + 1))"
proof -
  let ?self = "\<lparr>chunk_size = 1, chunk_overlap = 0\<rparr>"
  let ?cs = "[\<lparr>text_field = py_str ''ab'', chunk_index = 0, start_char = 0, word_count = 1\<rparr>,
            \<lparr>text_field = py_str ''cd'', chunk_index = 1, start_char = 1, word_count = 1\<rparr>]"
  have run: "chunk_text ?self (py_str ''ab cd'') = Inr ?cs"
    by (simp add: eval_simps)
  have k: "1 < length ?cs" by simp
  from start_char_counts_words [OF run k]
  have "text_field (?cs ! 1) = join (py_str '' '')
        (py_slice (split (py_str ''ab cd'')) (start_char (?cs ! 1)) (start_char (?cs ! 1) + chunk_size ?self))"
    by blast
  then have "py_str ''cd'' = join (py_str '' '') (py_slice (split (py_str ''ab cd'')) 1 (1 + 1))"
    by simp
  with run k show ?thesis by (intro conjI)
qed


subsection \<open>C8: a document without text\<close>

text \<open>
  C8, as stated, fails when \<open>chunk_size = chunk_overlap\<close>: the extracted text is empty,
  \<^verbatim>\<open>range(0, 0, 0)\<close> raises \<^verbatim>\<open>ValueError\<close>, and \<open>process_pdf\<close> returns no record.
\<close>

theorem empty_text_equal_size_overlap:
  "snd (extract_text no_pages_fitz no_pages_pdfplumber (py_str ''empty.pdf'')) = Inr [] \<and>
   snd (process_pdf no_pages_fitz no_pages_pdfplumber \<lparr>chunk_size = 5, chunk_overlap = 5\<rparr>
          (py_str ''empty.pdf'')) =
     Inl (ValueError (py_str ''range() arg 3 must not be zero''))"
  by (simp add: process_pdf_def extract_text_def extract_text_pymupdf_def chunk_text_def
        py_range_def split_def Let_def no_pages_fitz_def)

text \<open>
  C8, amended: for every document whose extracted text is the empty string and every
  configuration with \<open>chunk_size \<noteq> chunk_overlap\<close>, \<open>process_pdf\<close> succeeds and its
  result has \<open>total_chunks = 0\<close>, \<open>total_chars = 0\<close> and an empty chunk list.
\<close>

theorem empty_text_no_chunks:
  assumes "snd (extract_text fitz pdfplumber pdf_path) = Inr []"
    and "chunk_size self \<noteq> chunk_overlap self"
  shows "snd (process_pdf fitz pdfplumber self pdf_path) =
     Inr \<lparr>filename = basename pdf_path, full_text = [], chunks = [],
          total_chunks = 0, total_chars = 0\<rparr>"
  using extract_text_process_pdf [OF assms(1) chunk_text_empty [OF assms(2)]] by simp

theorem empty_text_no_chunks_witness:
  "snd (extract_text (\<lambda>_. Inr [[], []]) (\<lambda>_. Inr []) (py_str ''docs/empty.pdf'')) = Inr [] \<and>
   chunk_size \<lparr>chunk_size = 1000, chunk_overlap = 200\<rparr>
     \<noteq> chunk_overlap \<lparr>chunk_size = 1000, chunk_overlap = 200\<rparr> \<and>
   snd (process_pdf (\<lambda>_. Inr [[], []]) (\<lambda>_. Inr []) \<lparr>chunk_size = 1000, chunk_overlap = 200\<rparr>
          (py_str ''docs/empty.pdf'')) =
     Inr \<lparr>filename = py_str ''empty.pdf'', full_text = [], chunks = [],
          total_chunks = 0, total_chars = 0\<rparr>"
proof -
  let ?fitz = "\<lambda>_::pystr. Inr [[], []] :: lib_raise + pystr list"
  let ?pl = "\<lambda>_::pystr. Inr [] :: lib_raise + pystr option list"
  let ?self = "\<lparr>chunk_size = 1000, chunk_overlap = 200\<rparr>"
  have h1: "snd (extract_text ?fitz ?pl (py_str ''docs/empty.pdf'')) = Inr []"
    by (simp add: extract_text_def extract_text_pymupdf_def)
  have h2: "chunk_size ?self \<noteq> chunk_overlap ?self"
    by simp
  have b: "basename (py_str ''docs/empty.pdf'') = py_str ''empty.pdf''"
    by (simp add: basename_def py_str_def)
  from empty_text_no_chunks [OF h1 h2] h1 h2 show ?thesis
    unfolding b by (intro conjI)
qed

subsection \<open>C2: the constructor and an overlap that is not below the size\<close>

text \<open>
  C2, as stated, fails: the constructor checks nothing, and \<open>init 4 4\<close> returns a
  processor whose overlap equals its size.
\<close>

theorem init_accepts_overlap_equal_size:
  "chunk_size \<lparr>chunk_size = 4, chunk_overlap = 4\<rparr> \<le> chunk_overlap \<lparr>chunk_size = 4, chunk_overlap = 4\<rparr> \<and>
   init 4 4 = Inr \<lparr>chunk_size = 4, chunk_overlap = 4\<rparr>"
  by (simp add: init_def)

text \<open>
  C2, amended: constructing a \<open>PDFProcessor\<close> succeeds for every \<open>chunk_size\<close> and
  \<open>chunk_overlap\<close> and stores both. With \<open>chunk_overlap = chunk_size\<close> every later
  \<open>chunk_text\<close> call raises the \<^verbatim>\<open>ValueError\<close> of \<^verbatim>\<open>range\<close> for a zero step; with
  \<open>chunk_overlap > chunk_size\<close> the stride is negative, the range is empty and
  \<open>chunk_text\<close> returns no chunk and no error. In both cases the loop body never runs.
\<close>

theorem init_never_fails:
  "init size' overlap' = Inr \<lparr>chunk_size = size', chunk_overlap = overlap'\<rparr> \<and>
   (overlap' = size' \<longrightarrow>
      chunk_text \<lparr>chunk_size = size', chunk_overlap = overlap'\<rparr> t =
        Inl (ValueError (py_str ''range() arg 3 must not be zero''))) \<and>
   (size' < overlap' \<longrightarrow>
      chunk_text \<lparr>chunk_size = size', chunk_overlap = overlap'\<rparr> t = Inr [])"
  by (simp add: init_def chunk_text_stride_zero chunk_text_stride_neg)

theorem init_never_fails_witness:
  "init 4 4 = Inr \<lparr>chunk_size = 4, chunk_overlap = 4\<rparr> \<and>
   chunk_text \<lparr>chunk_size = 4, chunk_overlap = 4\<rparr> (py_str ''a b c'') =
     Inl (ValueError (py_str ''range() arg 3 must not be zero'')) \<and>
   init 2 5 = Inr \<lparr>chunk_size = 2, chunk_overlap = 5\<rparr> \<and>
   chunk_text \<lparr>chunk_size = 2, chunk_overlap = 5\<rparr> (py_str ''a b c'') = Inr []"
  using init_never_fails [of 4 4 "py_str ''a b c''"] init_never_fails [of 2 5 "py_str ''a b c''"]
  by simp

subsection \<open>C3: primary extraction, then one fallback\<close>

text \<open>
  C3: \<open>process_pdf\<close> calls the PyMuPDF extraction first; it calls the pdfplumber
  extraction exactly once if the first raised, and not at all otherwise; and when both
  raise, the outcome of \<open>process_pdf\<close> is the error of the pdfplumber extraction, with
  no record. When both libraries raise an \<^verbatim>\<open>Exception\<close>, that error carries the
  pdfplumber message.
\<close>

theorem fallback_once:
  "fst (process_pdf fitz pdfplumber self pdf_path) =
     (if isl (extract_text_pymupdf fitz pdf_path)
      then [Call_pymupdf pdf_path, Call_pdfplumber pdf_path]
      else [Call_pymupdf pdf_path]) \<and>
   (\<forall>e. isl (extract_text_pymupdf fitz pdf_path) \<longrightarrow>
        extract_text_pdfplumber pdfplumber pdf_path = Inl e \<longrightarrow>
        snd (process_pdf fitz pdfplumber self pdf_path) = Inl e) \<and>
   (\<forall>m1 m2. fitz pdf_path = Inl (Raises True m1) \<longrightarrow>
        pdfplumber pdf_path = Inl (Raises True m2) \<longrightarrow>
        snd (process_pdf fitz pdfplumber self pdf_path) =
          Inl (Exception (py_str ''Error extracting text with pdfplumber: '' @ m2)))"
proof (intro conjI allI impI)
  show "fst (process_pdf fitz pdfplumber self pdf_path) =
     (if isl (extract_text_pymupdf fitz pdf_path)
      then [Call_pymupdf pdf_path, Call_pdfplumber pdf_path]
      else [Call_pymupdf pdf_path])"
    by (simp add: process_pdf_def extract_text_def split: sum.splits)
next
  fix e
  assume "isl (extract_text_pymupdf fitz pdf_path)"
    and "extract_text_pdfplumber pdfplumber pdf_path = Inl e"
  then show "snd (process_pdf fitz pdfplumber self pdf_path) = Inl e"
    by (cases "extract_text_pymupdf fitz pdf_path") (simp_all add: process_pdf_def extract_text_def)
next
  fix m1 m2
  assume "fitz pdf_path = Inl (Raises True m1)" and "pdfplumber pdf_path = Inl (Raises True m2)"
  then show "snd (process_pdf fitz pdfplumber self pdf_path) =
          Inl (Exception (py_str ''Error extracting text with pdfplumber: '' @ m2))"
    by (simp add: process_pdf_def extract_text_def extract_text_pymupdf_def
          extract_text_pdfplumber_def reraise_def)
qed

theorem fallback_once_witness:
  "fst (process_pdf (\<lambda>_. Inl (Raises True (py_str ''bad xref''))) (\<lambda>_. Inl (Raises True (py_str ''no pages'')))
          \<lparr>chunk_size = 4, chunk_overlap = 2\<rparr> (py_str ''x.pdf'')) =
     [Call_pymupdf (py_str ''x.pdf''), Call_pdfplumber (py_str ''x.pdf'')] \<and>
   snd (process_pdf (\<lambda>_. Inl (Raises True (py_str ''bad xref''))) (\<lambda>_. Inl (Raises True (py_str ''no pages'')))
          \<lparr>chunk_size = 4, chunk_overlap = 2\<rparr> (py_str ''x.pdf'')) =
     Inl (Exception (py_str ''Error extracting text with pdfplumber: '' @ py_str ''no pages''))"
proof -
  let ?fitz = "\<lambda>_::pystr. Inl (Raises True (py_str ''bad xref'')) :: lib_raise + pystr list"
  let ?pl = "\<lambda>_::pystr. Inl (Raises True (py_str ''no pages'')) :: lib_raise + pystr option list"
  have p: "isl (extract_text_pymupdf ?fitz (py_str ''x.pdf''))"
    by (simp add: extract_text_pymupdf_def)
  from fallback_once [of ?fitz ?pl "\<lparr>chunk_size = 4, chunk_overlap = 2\<rparr>" "py_str ''x.pdf''"] p
  show ?thesis by simp
qed

subsection \<open>C10: a non-PDF upload ends as a 500\<close>

text \<open>
  C10: for every upload whose file name is a string that does not end in \<^verbatim>\<open>.pdf\<close>,
  the \<^verbatim>\<open>try\<close> block raises \<^verbatim>\<open>HTTPException(400, "Only PDF files allowed")\<close>, the
  handler catches it and raises \<^verbatim>\<open>HTTPException\<close> with status 500 and the string of the
  caught 400 error as detail; the handler never raises a 400.
\<close>

theorem upload_non_pdf_raises_500:
  assumes "\<not> endswith name (py_str ''.pdf'')"
  shows "upload_pdf str (Some name) uid =
      Inl (HTTPException 500 (str (HTTPException 400 (py_str ''Only PDF files allowed'')))) \<and>
    upload_pdf_try (Some name) uid = Inl (HTTPException 400 (py_str ''Only PDF files allowed'')) \<and>
    (\<forall>d. upload_pdf str (Some name) uid \<noteq> Inl (HTTPException 400 d))"
  using assms by (simp add: upload_pdf_def upload_pdf_try_def)

theorem upload_non_pdf_raises_500_witness:
  "\<not> endswith (py_str ''notes.txt'') (py_str ''.pdf'') \<and>
   upload_pdf (\<lambda>e. case e of HTTPException c d \<Rightarrow> d | AttributeError \<Rightarrow> [])
     (Some (py_str ''notes.txt'')) (py_str ''u1'') =
   Inl (HTTPException 500 (py_str ''Only PDF files allowed''))"
proof -
  have h: "\<not> endswith (py_str ''notes.txt'') (py_str ''.pdf'')"
    by (simp add: endswith_def py_str_def)
  from upload_non_pdf_raises_500 [OF h,
      of "\<lambda>e. case e of HTTPException c d \<Rightarrow> d | AttributeError \<Rightarrow> []" "py_str ''u1''"] h
  show ?thesis by simp
qed


end
